theory Spec2Isabelle
  imports Complex_Main "HOL-Library.Multiset"
begin

section \<open>Variant matching of \<^verbatim>\<open>bin/match_variants.py\<close>\<close>

text \<open>
  The script reads a table of target variants and a combined scoring file, joins them
  under four allele orientations, labels strand-ambiguous matches, splits the matches by
  effect type and by duplicated identifier, and writes one score file per group.

  Data frames are lists of rows; a row is a record whose fields carry the column names of
  the source. Column values are never null in this model. A chromosome is held as the text
  that Python prints for it, so an integer chromosome is in decimal notation without
  leading zeros. The effect weight is a number
  that the script only carries from the scoring file to the output (it is never computed
  with), so it is modelled as a \<^typ>\<open>real\<close>.
\<close>

subsection \<open>Complementing alleles\<close>

text \<open>
  Polars' \<^verbatim>\<open>str.replace_all(pattern, value)\<close>, for the one-letter literal patterns and
  values of the source: every occurrence of the letter is replaced.
\<close>

definition replace_all :: "char \<Rightarrow> char \<Rightarrow> string \<Rightarrow> string" where
  "replace_all pattern v s = map (\<lambda>c. if c = pattern then v else c) s"

text \<open>
  The chain of eight replacements of \<^verbatim>\<open>read_target\<close> (lines 35 to 42 and 44 to 51):
  first A, T, C, G to the temporary letters V, X, Y, Z, then the temporaries to T, A, G, C.
  The docstring of \<^verbatim>\<open>get_all_matches\<close> calls the result \<^verbatim>\<open>flip\<close>.
\<close>

definition flip :: "string \<Rightarrow> string" where
  "flip s =
     replace_all (CHR ''Z'') (CHR ''C'')
      (replace_all (CHR ''Y'') (CHR ''G'')
        (replace_all (CHR ''X'') (CHR ''A'')
          (replace_all (CHR ''V'') (CHR ''T'')
            (replace_all (CHR ''G'') (CHR ''Z'')
              (replace_all (CHR ''C'') (CHR ''Y'')
                (replace_all (CHR ''T'') (CHR ''X'')
                  (replace_all (CHR ''A'') (CHR ''V'') s)))))))"

subsection \<open>The target table\<close>

text \<open>
  A parsed row of the target table, with the columns the script uses
  (\<^verbatim>\<open>#CHROM\<close>, \<^verbatim>\<open>ID\<close>, \<^verbatim>\<open>POS\<close>, \<^verbatim>\<open>REF\<close>, \<^verbatim>\<open>ALT\<close>); every other column of the file
  (\<^verbatim>\<open>CM\<close> in the bim format) is dropped when \<^verbatim>\<open>match_variants\<close> selects its columns.
\<close>

record variant_row =
  CHROM :: string
  ID :: string
  POS :: int
  REF :: string
  ALT :: string

record target_variant = variant_row +
  REF_FLIP :: string
  ALT_FLIP :: string

text \<open>\<^verbatim>\<open>read_target\<close>, after parsing: the two flipped columns are added to every row.\<close>

definition read_target :: "variant_row list \<Rightarrow> target_variant list" where
  "read_target x =
     map (\<lambda>r. \<lparr>CHROM = CHROM r, ID = ID r, POS = POS r, REF = REF r, ALT = ALT r,
                REF_FLIP = flip (REF r), ALT_FLIP = flip (ALT r)\<rparr>) x"

subsection \<open>The scoring file and the matches\<close>

record score_entry =
  chr_name :: string
  chr_position :: int
  effect_allele :: string
  other_allele :: string
  effect_weight :: real
  effect_type :: string
  accession :: string

text \<open>
  A match has the columns \<^verbatim>\<open>colnames\<close> of \<^verbatim>\<open>match_variants\<close>, in that order: the seven
  columns of the scoring file, then five columns of the target and the match type.
  \<^verbatim>\<open>label_biallelic_ambiguous\<close> adds the column \<^verbatim>\<open>ambiguous\<close>.
\<close>

record match_record = score_entry +
  ID :: string
  REF :: string
  ALT :: string
  REF_FLIP :: string
  ALT_FLIP :: string
  match_type :: string

record labelled_match = match_record +
  ambiguous :: bool

text \<open>The names of the allele columns of the target that \<^verbatim>\<open>EA\<close> and \<^verbatim>\<open>OA\<close> range over.\<close>

datatype allele_col = Col_REF | Col_ALT | Col_REF_FLIP | Col_ALT_FLIP

fun target_col :: "allele_col \<Rightarrow> target_variant \<Rightarrow> string" where
  "target_col Col_REF t = variant_row.REF t"
| "target_col Col_ALT t = variant_row.ALT t"
| "target_col Col_REF_FLIP t = target_variant.REF_FLIP t"
| "target_col Col_ALT_FLIP t = target_variant.ALT_FLIP t"

text \<open>
  A column of the joined row. The join drops the key columns \<^verbatim>\<open>EA\<close> and \<^verbatim>\<open>OA\<close> of the
  target; \<^verbatim>\<open>with_columns\<close> puts them back as copies of \<^verbatim>\<open>effect_allele\<close> and
  \<^verbatim>\<open>other_allele\<close>. The other allele columns come from the target row.
\<close>

definition joined_col ::
  "allele_col \<Rightarrow> allele_col \<Rightarrow> allele_col \<Rightarrow> score_entry \<Rightarrow> target_variant \<Rightarrow> string" where
  "joined_col c EA OA s t =
     (if c = EA then effect_allele s
      else if c = OA then other_allele s
      else target_col c t)"

text \<open>
  \<^verbatim>\<open>match_variants\<close>: the inner join of the scoring file with the target on
  (\<^verbatim>\<open>chr_name\<close>, \<^verbatim>\<open>chr_position\<close>, \<^verbatim>\<open>effect_allele\<close>, \<^verbatim>\<open>other_allele\<close>) =
  (\<^verbatim>\<open>#CHROM\<close>, \<^verbatim>\<open>POS\<close>, \<^verbatim>\<open>EA\<close>, \<^verbatim>\<open>OA\<close>). Rows are listed by scoring-file row, then by target
  row; the order in which Polars returns the rows of a join is not fixed, and nothing
  below depends on it except where it is said.
\<close>

definition match_variants ::
  "score_entry list \<Rightarrow> target_variant list \<Rightarrow> allele_col \<Rightarrow> allele_col \<Rightarrow> string
     \<Rightarrow> match_record list" where
  "match_variants scorefile target EA OA mt =
     [\<lparr>chr_name = chr_name s, chr_position = chr_position s,
        effect_allele = effect_allele s, other_allele = other_allele s,
        effect_weight = effect_weight s, effect_type = effect_type s,
        accession = accession s,
        ID = variant_row.ID t,
        REF = joined_col Col_REF EA OA s t,
        ALT = joined_col Col_ALT EA OA s t,
        REF_FLIP = joined_col Col_REF_FLIP EA OA s t,
        ALT_FLIP = joined_col Col_ALT_FLIP EA OA s t,
        match_type = mt\<rparr>.
      s \<leftarrow> scorefile, t \<leftarrow> target,
      chr_name s = CHROM t \<and> chr_position s = POS t
        \<and> effect_allele s = target_col EA t \<and> other_allele s = target_col OA t]"

text \<open>
  \<^verbatim>\<open>label_biallelic_ambiguous\<close>: the column \<^verbatim>\<open>ambiguous\<close> is added with the value
  \<^verbatim>\<open>True\<close>, then rewritten by the \<^verbatim>\<open>when / then / otherwise\<close> expression, and the rows whose
  flag is \<^verbatim>\<open>False\<close> are kept when \<^verbatim>\<open>remove\<close> is set.
\<close>

definition label_biallelic_ambiguous :: "match_record list \<Rightarrow> bool \<Rightarrow> labelled_match list" where
  "label_biallelic_ambiguous matches remove =
     (let matches1 = map (\<lambda>m. match_record.extend m (labelled_match.fields True)) matches;
          ambiguous_df =
            map (\<lambda>m. m\<lparr>ambiguous :=
                        (if effect_allele m = ALT_FLIP m \<or> effect_allele m = REF_FLIP m
                         then ambiguous m else False)\<rparr>) matches1
      in if remove then filter (\<lambda>m. ambiguous m = False) ambiguous_df else ambiguous_df)"

definition get_all_matches ::
  "target_variant list \<Rightarrow> score_entry list \<Rightarrow> bool \<Rightarrow> labelled_match list" where
  "get_all_matches target scorefile remove =
     (let refalt = match_variants scorefile target Col_REF Col_ALT ''refalt'';
          altref = match_variants scorefile target Col_ALT Col_REF ''altref'';
          refalt_flip =
            match_variants scorefile target Col_REF_FLIP Col_ALT_FLIP ''refalt_flip'';
          altref_flip =
            match_variants scorefile target Col_ALT_FLIP Col_REF_FLIP ''altref_flip''
      in label_biallelic_ambiguous (refalt @ altref @ refalt_flip @ altref_flip) remove)"

subsection \<open>Splitting by effect type and by duplicated identifier\<close>

text \<open>
  \<^verbatim>\<open>Series.unique()\<close>: the distinct values of a column, here in the order of their first
  occurrence (Polars does not fix the order).
\<close>

definition unique :: "'a list \<Rightarrow> 'a list" where
  "unique xs = rev (remdups (rev xs))"

text \<open>
  \<^verbatim>\<open>Series.is_duplicated()\<close>: the mask that is true at every position whose value occurs
  more than once in the column, and \<^verbatim>\<open>df[mask]\<close>: the rows at which the mask is true.
\<close>

definition is_duplicated :: "'a list \<Rightarrow> bool list" where
  "is_duplicated xs = map (\<lambda>x. 1 < count_list xs x) xs"

definition mask_rows :: "'a list \<Rightarrow> bool list \<Rightarrow> 'a list" where
  "mask_rows df m = map fst (filter snd (zip df m))"

text \<open>The dictionary with the keys \<^verbatim>\<open>'first'\<close> and \<^verbatim>\<open>'dup'\<close> that \<^verbatim>\<open>unduplicate_variants\<close> returns.\<close>

record split_groups =
  first :: "labelled_match list"
  dup :: "labelled_match list"

definition unduplicate_variants :: "labelled_match list \<Rightarrow> split_groups" where
  "unduplicate_variants df =
     \<lparr>first = mask_rows df (map Not (is_duplicated (map ID df))),
      dup = mask_rows df (is_duplicated (map ID df))\<rparr>"

text \<open>\<^verbatim>\<open>split_effect_type\<close>: a dictionary from each effect type to its rows, as an association list.\<close>

definition split_effect_type :: "labelled_match list \<Rightarrow> (string \<times> labelled_match list) list" where
  "split_effect_type df =
     (let effect_types = unique (map effect_type df)
      in map (\<lambda>x. (x, filter (\<lambda>r. effect_type r = x) df)) effect_types)"

subsection \<open>Formatting and writing\<close>

text \<open>
  A pivoted table: the names of its columns, and one row per (\<^verbatim>\<open>ID\<close>, \<^verbatim>\<open>effect_allele\<close>) with
  one cell per accession. \<^verbatim>\<open>pivot\<close> takes the first weight of each cell and leaves a cell
  with no row null; \<^verbatim>\<open>fill_null\<close> replaces the nulls. Rows and accession columns are in the
  order of their first occurrence.
\<close>

record 'v wide_table =
  header :: "string list"
  body :: "(string \<times> string \<times> 'v list) list"

definition pivot :: "labelled_match list \<Rightarrow> real option wide_table" where
  "pivot df =
     (let accessions = unique (map accession df);
          index = unique (map (\<lambda>r. (ID r, effect_allele r)) df)
      in \<lparr>header = [''ID'', ''effect_allele''] @ accessions,
          body = map (\<lambda>(i, e). (i, e,
                   map (\<lambda>a. map_option effect_weight
                          (find (\<lambda>r. ID r = i \<and> effect_allele r = e \<and> accession r = a) df))
                     accessions)) index\<rparr>)"

definition fill_null :: "'v \<Rightarrow> 'v option wide_table \<Rightarrow> 'v wide_table" where
  "fill_null z t =
     \<lparr>header = header t,
      body = map (\<lambda>(i, e, ws). (i, e, map (\<lambda>w. case w of None \<Rightarrow> z | Some x \<Rightarrow> x) ws)) (body t)\<rparr>"

definition format_scorefile :: "labelled_match list \<Rightarrow> bool \<Rightarrow> (string \<times> real wide_table) list" where
  "format_scorefile df split =
     (if split then
        (let chroms = unique (map chr_name df)
         in map (\<lambda>x. (x, fill_null 0 (pivot (filter (\<lambda>r. chr_name r = x) df)))) chroms)
      else [(''false'', fill_null 0 (pivot df))])"

text \<open>
  The template \<^verbatim>\<open>'{chr}_{et}_{dup}.scorefile'\<close>. The effect type comes from
  \<^verbatim>\<open>ea_dict.get\<close>, which is \<^verbatim>\<open>None\<close> for a key it does not have; \<^verbatim>\<open>format\<close> prints that
  as \<^verbatim>\<open>None\<close>.
\<close>

definition fout :: "string \<Rightarrow> string option \<Rightarrow> string \<Rightarrow> string" where
  "fout chr et dup_label =
     chr @ ''_'' @ (case et of None \<Rightarrow> ''None'' | Some e \<Rightarrow> e) @ ''_'' @ dup_label @ ''.scorefile''"

text \<open>
  \<^verbatim>\<open>write_scorefile\<close> returns the calls of \<^verbatim>\<open>write_csv\<close> it makes, in order, each with
  its path and its table. Both blocks of the source format the path with \<^verbatim>\<open>dup = 'first'\<close>
  (lines 163 and 169).
\<close>

definition write_scorefile ::
  "string option \<Rightarrow> split_groups \<Rightarrow> bool \<Rightarrow> (string \<times> real wide_table) list" where
  "write_scorefile et scorefile split =
     (let w1 = (if 0 < length (first scorefile)
                then map (\<lambda>(k, v). (fout k et ''first'', v))
                       (format_scorefile (first scorefile) split)
                else []);
          w2 = (if 0 < length (dup scorefile)
                then map (\<lambda>(k, v). (fout k et ''first'', v))
                       (format_scorefile (dup scorefile) split)
                else [])
      in w1 @ w2)"

text \<open>The files on disk after a sequence of writes: \<^verbatim>\<open>write_csv\<close> replaces an existing file.\<close>

definition disk :: "(string \<times> 'a) list \<Rightarrow> (string \<rightharpoonup> 'a)" where
  "disk ws = fold (\<lambda>(p, v) fs. fs(p \<mapsto> v)) ws Map.empty"

subsection \<open>The main function\<close>

datatype error = AssertionError

definition ea_dict :: "string \<rightharpoonup> string" where
  "ea_dict = map_of [(''is_dominant'', ''dominant''), (''is_recessive'', ''recessive''),
                     (''additive'', ''additive'')]"

text \<open>\<^verbatim>\<open>read_scorefile\<close>, after parsing: the casts to categorical columns change no value.\<close>

definition read_scorefile :: "score_entry list \<Rightarrow> score_entry list" where
  "read_scorefile x = x"

text \<open>The parsed command line. \<^verbatim>\<open>--format\<close> is optional, the other options are required.\<close>

record args =
  dataset :: string
  scorefile :: string
  target :: string
  split :: bool
  plink_format :: "string option"
  min_overlap :: real

text \<open>
  \<^verbatim>\<open>main\<close>, given the parsed command line and the parsed contents of the two input files.
  It returns how the run ends (the assertion of line 191 raises, or the function
  returns) and the files written until then.

  A join of Polars raises an error of its own when a key column has different data types
  in the two tables (an integer chromosome column against a text one, or any column of a
  table without rows, which is read as text, against an integer one). That error is not
  part of this function: it describes the runs whose key columns agree in their types,
  for which \<open>same_key_dtypes\<close> below is a sufficient condition.
\<close>

definition main ::
  "args \<Rightarrow> variant_row list \<Rightarrow> score_entry list
     \<Rightarrow> (error + unit) \<times> (string \<times> real wide_table) list" where
  "main a target_file scorefile_file =
     (let tgt = read_target target_file;
          sf = read_scorefile scorefile_file;
          matches = get_all_matches tgt sf True
      in if \<not> 0 < length matches then (Inl AssertionError, [])
         else
           (let ets = split_effect_type matches;
                unduplicated = map (\<lambda>(k, v). (k, unduplicate_variants v)) ets
            in (Inr (),
                concat (map (\<lambda>(k, v). write_scorefile (ea_dict k) v (split a)) unduplicated))))"

subsection \<open>Auxiliary notions for the statements\<close>

text \<open>
  The complement of one base as the specification words it: A to T, T to A, C to G and
  G to C. It leaves every other letter as it is.
\<close>

definition complement_base :: "char \<Rightarrow> char" where
  "complement_base c =
     (if c = CHR ''A'' then CHR ''T'' else if c = CHR ''T'' then CHR ''A''
      else if c = CHR ''C'' then CHR ''G'' else if c = CHR ''G'' then CHR ''C'' else c)"

text \<open>What the eight replacements of \<^const>\<open>flip\<close> do to one letter (lemma \<open>flip_map\<close>).\<close>

definition flip_char :: "char \<Rightarrow> char" where
  "flip_char c =
     (if c = CHR ''A'' \<or> c = CHR ''V'' then CHR ''T''
      else if c = CHR ''T'' \<or> c = CHR ''X'' then CHR ''A''
      else if c = CHR ''C'' \<or> c = CHR ''Y'' then CHR ''G''
      else if c = CHR ''G'' \<or> c = CHR ''Z'' then CHR ''C''
      else c)"



subsection \<open>Example inputs\<close>

text \<open>
  Rows of a target table, entries of a scoring file, two matches and a command line, for
  the statements at concrete inputs. The entry \<open>score_unmatched\<close> lies on a chromosome
  that the target rows do not have.
\<close>

abbreviation row_AG :: variant_row where
  "row_AG \<equiv> \<lparr>CHROM = ''1'', variant_row.ID = ''rs1'', POS = 100,
               variant_row.REF = ''A'', variant_row.ALT = ''G''\<rparr>"

abbreviation row_AT :: variant_row where
  "row_AT \<equiv> \<lparr>CHROM = ''1'', variant_row.ID = ''rs2'', POS = 200,
               variant_row.REF = ''A'', variant_row.ALT = ''T''\<rparr>"

abbreviation row_CT :: variant_row where
  "row_CT \<equiv> \<lparr>CHROM = ''1'', variant_row.ID = ''rs3'', POS = 300,
               variant_row.REF = ''C'', variant_row.ALT = ''T''\<rparr>"

abbreviation score_AG :: score_entry where
  "score_AG \<equiv> \<lparr>chr_name = ''1'', chr_position = 100, effect_allele = ''A'',
                 other_allele = ''G'', effect_weight = 0.5, effect_type = ''additive'',
                 accession = ''X''\<rparr>"

abbreviation score_AT :: score_entry where
  "score_AT \<equiv> \<lparr>chr_name = ''1'', chr_position = 200, effect_allele = ''A'',
                 other_allele = ''T'', effect_weight = 0.3, effect_type = ''additive'',
                 accession = ''X''\<rparr>"

abbreviation score_CT :: score_entry where
  "score_CT \<equiv> \<lparr>chr_name = ''1'', chr_position = 300, effect_allele = ''C'',
                 other_allele = ''T'', effect_weight = 0.25, effect_type = ''additive'',
                 accession = ''X''\<rparr>"

abbreviation score_TC :: score_entry where
  "score_TC \<equiv> \<lparr>chr_name = ''1'', chr_position = 300, effect_allele = ''T'',
                 other_allele = ''C'', effect_weight = 0.75, effect_type = ''additive'',
                 accession = ''Y''\<rparr>"

abbreviation score_unmatched :: score_entry where
  "score_unmatched \<equiv> \<lparr>chr_name = ''2'', chr_position = 50, effect_allele = ''C'',
                 other_allele = ''T'', effect_weight = 0.25, effect_type = ''additive'',
                 accession = ''X''\<rparr>"

abbreviation cli :: "bool \<Rightarrow> real \<Rightarrow> args" where
  "cli sp m \<equiv> \<lparr>dataset = ''cohort'', scorefile = ''scores.txt'', target = ''cohort.bim'',
                split = sp, plink_format = Some ''bim'', min_overlap = m\<rparr>"

abbreviation match_AG :: match_record where
  "match_AG \<equiv> \<lparr>chr_name = ''1'', chr_position = 100, effect_allele = ''A'',
                 other_allele = ''G'', effect_weight = 0.5, effect_type = ''additive'',
                 accession = ''X'', ID = ''rs1'', REF = ''A'', ALT = ''G'', REF_FLIP = ''T'',
                 ALT_FLIP = ''C'', match_type = ''refalt''\<rparr>"

abbreviation match_AT :: match_record where
  "match_AT \<equiv> \<lparr>chr_name = ''1'', chr_position = 200, effect_allele = ''A'',
                 other_allele = ''T'', effect_weight = 0.3, effect_type = ''additive'',
                 accession = ''X'', ID = ''rs2'', REF = ''A'', ALT = ''T'', REF_FLIP = ''T'',
                 ALT_FLIP = ''A'', match_type = ''refalt''\<rparr>"

section \<open>Properties\<close>

subsection \<open>The allele complement\<close>

text \<open>The eight replacements act letter by letter.\<close>

lemma flip_map: "flip s = map flip_char s"
  unfolding flip_def replace_all_def by (simp add: flip_char_def)

lemma flip_char_valid: "c \<in> set ''ATCG'' \<Longrightarrow> flip_char c = complement_base c"
  by (auto simp: flip_char_def complement_base_def)

lemma flip_char_other: "c \<notin> set ''ATCGVXYZ'' \<Longrightarrow> flip_char c = c"
  by (auto simp: flip_char_def)

lemma flip_char_twice: "flip_char (flip_char c) = c \<longleftrightarrow> c \<notin> set ''VXYZ''"
  by (auto simp: flip_char_def)

lemma flip_twice_iff: "flip (flip x) = x \<longleftrightarrow> set x \<inter> set ''VXYZ'' = {}"
proof -
  have "flip (flip x) = x \<longleftrightarrow> map (\<lambda>c. flip_char (flip_char c)) x = map (\<lambda>c. c) x"
    by (simp add: flip_map o_def)
  also have "\<dots> \<longleftrightarrow> (\<forall>c \<in> set x. flip_char (flip_char c) = c)"
    by (rule map_eq_conv)
  also have "\<dots> \<longleftrightarrow> (\<forall>c \<in> set x. c \<notin> set ''VXYZ'')"
    by (simp only: flip_char_twice)
  also have "\<dots> \<longleftrightarrow> set x \<inter> set ''VXYZ'' = {}"
    by blast
  finally show ?thesis .
qed

lemma flip_valid: "set x \<subseteq> set ''ATCG'' \<Longrightarrow> flip x = map complement_base x"
proof -
  assume "set x \<subseteq> set ''ATCG''"
  then have "\<forall>c \<in> set x. flip_char c = complement_base c"
    using flip_char_valid by blast
  then show ?thesis
    unfolding flip_map by (simp only: map_eq_conv)
qed

text \<open>
  Claim C2. For every allele string \<open>x\<close> over A, T, C, G, complementing twice gives \<open>x\<close>
  back, and the complement has the length and the order of \<open>x\<close>, with A, T, C, G mapped to
  T, A, G, C. In particular, for every loaded target variant whose \<open>REF\<close> (\<open>ALT\<close>) is such
  a string, complementing \<open>REF_FLIP\<close> (\<open>ALT_FLIP\<close>) recovers \<open>REF\<close> (\<open>ALT\<close>).
\<close>

theorem flip_involution:
  "(set x \<subseteq> set ''ATCG'' \<longrightarrow>
      flip (flip x) = x \<and> length (flip x) = length x \<and> flip x = map complement_base x)
   \<and> (\<forall>t \<in> set (read_target rows).
        (set (variant_row.REF t) \<subseteq> set ''ATCG''
           \<longrightarrow> flip (target_variant.REF_FLIP t) = variant_row.REF t)
      \<and> (set (variant_row.ALT t) \<subseteq> set ''ATCG''
           \<longrightarrow> flip (target_variant.ALT_FLIP t) = variant_row.ALT t))"
proof (intro conjI impI ballI)
  assume v: "set x \<subseteq> set ''ATCG''"
  then have "set x \<inter> set ''VXYZ'' = {}" by auto
  then show "flip (flip x) = x" by (simp only: flip_twice_iff)
  show "length (flip x) = length x" by (simp add: flip_map)
  from v show "flip x = map complement_base x" by (rule flip_valid)
next
  fix t assume t: "t \<in> set (read_target rows)"
    and a: "set (variant_row.REF t) \<subseteq> set ''ATCG''"
  from t have "target_variant.REF_FLIP t = flip (variant_row.REF t)"
    by (auto simp: read_target_def)
  moreover from a have "set (variant_row.REF t) \<inter> set ''VXYZ'' = {}" by auto
  ultimately show "flip (target_variant.REF_FLIP t) = variant_row.REF t"
    by (simp only: flip_twice_iff)
next
  fix t assume t: "t \<in> set (read_target rows)"
    and a: "set (variant_row.ALT t) \<subseteq> set ''ATCG''"
  from t have "target_variant.ALT_FLIP t = flip (variant_row.ALT t)"
    by (auto simp: read_target_def)
  moreover from a have "set (variant_row.ALT t) \<inter> set ''VXYZ'' = {}" by auto
  ultimately show "flip (target_variant.ALT_FLIP t) = variant_row.ALT t"
    by (simp only: flip_twice_iff)
qed

text \<open>The statement at the string GATC and at the target row with the alleles A and G.\<close>

theorem flip_involution_witness:
  "set ''GATC'' \<subseteq> set ''ATCG'' \<and> flip (flip ''GATC'') = ''GATC''
   \<and> flip ''GATC'' = map complement_base ''GATC''
   \<and> hd (read_target [row_AG]) \<in> set (read_target [row_AG])
   \<and> set (variant_row.REF (hd (read_target [row_AG]))) \<subseteq> set ''ATCG''
   \<and> flip (target_variant.REF_FLIP (hd (read_target [row_AG])))
       = variant_row.REF (hd (read_target [row_AG]))
   \<and> set (variant_row.ALT (hd (read_target [row_AG]))) \<subseteq> set ''ATCG''
   \<and> flip (target_variant.ALT_FLIP (hd (read_target [row_AG])))
       = variant_row.ALT (hd (read_target [row_AG]))"
proof -
  have a: "set ''GATC'' \<subseteq> set ''ATCG''"
    by simp
  have b: "hd (read_target [row_AG]) \<in> set (read_target [row_AG])"
    by (simp add: read_target_def)
  have c: "set (variant_row.REF (hd (read_target [row_AG]))) \<subseteq> set ''ATCG''"
    "set (variant_row.ALT (hd (read_target [row_AG]))) \<subseteq> set ''ATCG''"
    by (simp_all add: read_target_def)
  from a b c flip_involution [of "''GATC''" "[row_AG]"] show ?thesis
    by blast
qed

text \<open>
  Claim C7, as amended. The complement raises no error on any string: it returns a string
  of the same length, in which A, T, C, G are complemented and every letter other than
  A, T, C, G and the temporaries V, X, Y, Z is passed through as it is.
\<close>

theorem flip_passes_through:
  "length (flip x) = length x
   \<and> (\<forall>i < length x.
        (x ! i \<in> set ''ATCG'' \<longrightarrow> flip x ! i = complement_base (x ! i))
      \<and> (x ! i \<notin> set ''ATCGVXYZ'' \<longrightarrow> flip x ! i = x ! i))"
  unfolding flip_map using flip_char_valid flip_char_other by simp

text \<open>The statement at the string \<open>AN*\<close>: position 0 is complemented, position 1 is kept.\<close>

theorem flip_passes_through_witness:
  "(0::nat) < length ''AN*'' \<and> ''AN*'' ! 0 \<in> set ''ATCG''
   \<and> flip ''AN*'' ! 0 = complement_base (''AN*'' ! 0)
   \<and> (1::nat) < length ''AN*'' \<and> ''AN*'' ! 1 \<notin> set ''ATCGVXYZ''
   \<and> flip ''AN*'' ! 1 = ''AN*'' ! 1
   \<and> length (flip ''AN*'') = length ''AN*''"
proof -
  have a: "(0::nat) < length ''AN*''" "''AN*'' ! 0 \<in> set ''ATCG''"
    "(1::nat) < length ''AN*''" "''AN*'' ! 1 \<notin> set ''ATCGVXYZ''"
    by simp_all
  from a flip_passes_through [of "''AN*''"] show ?thesis
    by blast
qed

text \<open>
  Claim C7 as stated fails at the allele N, which is outside A, T, C, G: \<^const>\<open>read_target\<close>
  returns the table, with N passed through into \<open>REF_FLIP\<close>.
\<close>

theorem flip_error_counterexample:
  "\<not> set ''N'' \<subseteq> set ''ATCG''
   \<and> read_target [\<lparr>CHROM = ''1'', variant_row.ID = ''rs1'', POS = 100,
                    variant_row.REF = ''N'', variant_row.ALT = ''G''\<rparr>]
     = [\<lparr>CHROM = ''1'', variant_row.ID = ''rs1'', POS = 100,
          variant_row.REF = ''N'', variant_row.ALT = ''G'',
          target_variant.REF_FLIP = ''N'', target_variant.ALT_FLIP = ''C''\<rparr>]"
  by (simp add: read_target_def flip_def replace_all_def)

subsection \<open>Matching and labelling\<close>

lemma label_False:
  "label_biallelic_ambiguous ms False =
     map (\<lambda>m. match_record.extend m
            (labelled_match.fields (effect_allele m = ALT_FLIP m \<or> effect_allele m = REF_FLIP m))) ms"
  by (simp add: label_biallelic_ambiguous_def match_record.defs labelled_match.defs)

lemma label_True:
  "label_biallelic_ambiguous ms True =
     filter (\<lambda>r. \<not> ambiguous r) (label_biallelic_ambiguous ms False)"
  by (simp add: label_biallelic_ambiguous_def)

lemma label_subset: "set (label_biallelic_ambiguous ms remove) \<subseteq> set (label_biallelic_ambiguous ms False)"
  by (cases remove) (auto simp: label_True)

lemma label_flag:
  "r \<in> set (label_biallelic_ambiguous ms remove) \<Longrightarrow>
     \<exists>m \<in> set ms. r = match_record.extend m
        (labelled_match.fields (effect_allele m = ALT_FLIP m \<or> effect_allele m = REF_FLIP m))"
proof -
  assume "r \<in> set (label_biallelic_ambiguous ms remove)"
  then have "r \<in> set (label_biallelic_ambiguous ms False)" using label_subset by blast
  then show ?thesis
    unfolding label_False by auto
qed

lemma match_variants_row:
  "m \<in> set (match_variants sf tg EA OA mt) \<Longrightarrow>
     \<exists>s \<in> set sf. \<exists>t \<in> set tg.
        chr_name m = chr_name s \<and> chr_position m = chr_position s
      \<and> effect_allele m = effect_allele s \<and> other_allele m = other_allele s
      \<and> effect_weight m = effect_weight s \<and> effect_type m = effect_type s
      \<and> accession m = accession s
      \<and> ID m = variant_row.ID t
      \<and> REF m = variant_row.REF t \<and> ALT m = variant_row.ALT t
      \<and> REF_FLIP m = target_variant.REF_FLIP t \<and> ALT_FLIP m = target_variant.ALT_FLIP t
      \<and> match_type m = mt
      \<and> chr_name s = CHROM t \<and> chr_position s = POS t
      \<and> effect_allele s = target_col EA t \<and> other_allele s = target_col OA t"
proof -
  assume "m \<in> set (match_variants sf tg EA OA mt)"
  then obtain s t where st: "s \<in> set sf" "t \<in> set tg"
    and cond: "chr_name s = CHROM t" "chr_position s = POS t"
      "effect_allele s = target_col EA t" "other_allele s = target_col OA t"
    and m: "m = \<lparr>chr_name = chr_name s, chr_position = chr_position s,
        effect_allele = effect_allele s, other_allele = other_allele s,
        effect_weight = effect_weight s, effect_type = effect_type s,
        accession = accession s,
        ID = variant_row.ID t,
        REF = joined_col Col_REF EA OA s t,
        ALT = joined_col Col_ALT EA OA s t,
        REF_FLIP = joined_col Col_REF_FLIP EA OA s t,
        ALT_FLIP = joined_col Col_ALT_FLIP EA OA s t,
        match_type = mt\<rparr>"
    unfolding match_variants_def by auto
  have cols: "joined_col c EA OA s t = target_col c t" for c
    using cond by (simp add: joined_col_def)
  show ?thesis
    apply (rule bexI [OF _ st(1)])
    apply (rule bexI [OF _ st(2)])
    using cond by (simp add: m cols)
qed

text \<open>
  Claim C1. The resolver sets \<open>ambiguous\<close> to true exactly on the records whose
  \<open>effect_allele\<close> equals their \<open>ALT_FLIP\<close> or their \<open>REF_FLIP\<close> column, and to false on
  every other record, whatever the match type; with removal the records that remain carry
  the same flag. For a record that the matcher produced, these two columns are those of
  the target row it was joined with.
\<close>

theorem ambiguous_flag_iff:
  "label_biallelic_ambiguous ms False =
     map (\<lambda>m. match_record.extend m
            (labelled_match.fields (effect_allele m = ALT_FLIP m \<or> effect_allele m = REF_FLIP m))) ms
   \<and> (\<forall>r \<in> set (label_biallelic_ambiguous ms remove).
         ambiguous r = (effect_allele r = ALT_FLIP r \<or> effect_allele r = REF_FLIP r))
   \<and> (\<forall>r \<in> set (get_all_matches tg sf remove).
         \<exists>s \<in> set sf. \<exists>t \<in> set tg.
            chr_name s = CHROM t \<and> chr_position s = POS t
          \<and> chr_name r = chr_name s \<and> chr_position r = chr_position s
          \<and> effect_allele r = effect_allele s \<and> other_allele r = other_allele s
          \<and> ID r = variant_row.ID t
          \<and> REF_FLIP r = target_variant.REF_FLIP t \<and> ALT_FLIP r = target_variant.ALT_FLIP t
          \<and> ambiguous r = (effect_allele s = target_variant.ALT_FLIP t
                             \<or> effect_allele s = target_variant.REF_FLIP t))"
proof (intro conjI ballI)
  show "label_biallelic_ambiguous ms False =
     map (\<lambda>m. match_record.extend m
            (labelled_match.fields (effect_allele m = ALT_FLIP m \<or> effect_allele m = REF_FLIP m))) ms"
    by (rule label_False)
next
  fix r assume "r \<in> set (label_biallelic_ambiguous ms remove)"
  from label_flag [OF this] show "ambiguous r = (effect_allele r = ALT_FLIP r \<or> effect_allele r = REF_FLIP r)"
    by (auto simp: match_record.defs labelled_match.defs)
next
  fix r assume "r \<in> set (get_all_matches tg sf remove)"
  then have "r \<in> set (label_biallelic_ambiguous
      (match_variants sf tg Col_REF Col_ALT ''refalt''
       @ match_variants sf tg Col_ALT Col_REF ''altref''
       @ match_variants sf tg Col_REF_FLIP Col_ALT_FLIP ''refalt_flip''
       @ match_variants sf tg Col_ALT_FLIP Col_REF_FLIP ''altref_flip'') remove)"
    by (simp add: get_all_matches_def)
  from label_flag [OF this] obtain m where
    m: "m \<in> set (match_variants sf tg Col_REF Col_ALT ''refalt'')
        \<or> m \<in> set (match_variants sf tg Col_ALT Col_REF ''altref'')
        \<or> m \<in> set (match_variants sf tg Col_REF_FLIP Col_ALT_FLIP ''refalt_flip'')
        \<or> m \<in> set (match_variants sf tg Col_ALT_FLIP Col_REF_FLIP ''altref_flip'')"
    and r: "r = match_record.extend m
        (labelled_match.fields (effect_allele m = ALT_FLIP m \<or> effect_allele m = REF_FLIP m))"
    by auto
  from m obtain EA OA mt where "m \<in> set (match_variants sf tg EA OA mt)" by blast
  from match_variants_row [OF this] obtain s t where
    "s \<in> set sf" "t \<in> set tg" and f:
    "chr_name m = chr_name s" "chr_position m = chr_position s"
    "effect_allele m = effect_allele s" "other_allele m = other_allele s"
    "ID m = variant_row.ID t"
    "REF_FLIP m = target_variant.REF_FLIP t" "ALT_FLIP m = target_variant.ALT_FLIP t"
    "chr_name s = CHROM t" "chr_position s = POS t"
    by blast
  show "\<exists>s \<in> set sf. \<exists>t \<in> set tg.
            chr_name s = CHROM t \<and> chr_position s = POS t
          \<and> chr_name r = chr_name s \<and> chr_position r = chr_position s
          \<and> effect_allele r = effect_allele s \<and> other_allele r = other_allele s
          \<and> ID r = variant_row.ID t
          \<and> REF_FLIP r = target_variant.REF_FLIP t \<and> ALT_FLIP r = target_variant.ALT_FLIP t
          \<and> ambiguous r = (effect_allele s = target_variant.ALT_FLIP t
                             \<or> effect_allele s = target_variant.REF_FLIP t)"
    apply (rule bexI [OF _ \<open>s \<in> set sf\<close>])
    apply (rule bexI [OF _ \<open>t \<in> set tg\<close>])
    using f by (simp add: r match_record.defs labelled_match.defs)
qed

text \<open>
  The statement at two matches (the second has the alleles A and T), and at the matches of
  a target and a scoring file with these two variants.
\<close>

theorem ambiguous_flag_iff_witness:
  "map ambiguous (label_biallelic_ambiguous [match_AG, match_AT] False) = [False, True]
   \<and> map ID (label_biallelic_ambiguous [match_AG, match_AT] False) = [''rs1'', ''rs2'']
   \<and> map ambiguous
        (get_all_matches (read_target [row_AG, row_AT]) [score_AG, score_AT] False)
     = [False, True, True]"
proof -
  have "label_biallelic_ambiguous [match_AG, match_AT] False =
     map (\<lambda>m. match_record.extend m
            (labelled_match.fields (effect_allele m = ALT_FLIP m \<or> effect_allele m = REF_FLIP m)))
       [match_AG, match_AT]"
    using ambiguous_flag_iff [of "[match_AG, match_AT]"] by (rule conjunct1)
  then have a: "map ambiguous (label_biallelic_ambiguous [match_AG, match_AT] False)
      = [False, True]"
    and b: "map ID (label_biallelic_ambiguous [match_AG, match_AT] False) = [''rs1'', ''rs2'']"
    by (simp_all add: match_record.defs labelled_match.defs)
  have c: "map ambiguous
        (get_all_matches (read_target [row_AG, row_AT]) [score_AG, score_AT] False)
     = [False, True, True]"
    by code_simp
  from a b c show ?thesis by (intro conjI)
qed

text \<open>
  Claim C4. With removal the resolver returns exactly the rows that it labels as not
  ambiguous without removal, unchanged and in the same order; so its output is contained
  in the output without removal and holds no ambiguous record.
\<close>

theorem remove_is_filter:
  "label_biallelic_ambiguous ms True =
     filter (\<lambda>r. \<not> ambiguous r) (label_biallelic_ambiguous ms False)
   \<and> set (label_biallelic_ambiguous ms True) \<subseteq> set (label_biallelic_ambiguous ms False)
   \<and> (\<forall>r \<in> set (label_biallelic_ambiguous ms True). \<not> ambiguous r)"
  by (auto simp: label_True)

text \<open>The statement at the two matches: the A and T match is removed, the other is kept.\<close>

theorem remove_is_filter_witness:
  "map ID (label_biallelic_ambiguous [match_AG, match_AT] False) = [''rs1'', ''rs2'']
   \<and> map ID (label_biallelic_ambiguous [match_AG, match_AT] True) = [''rs1'']
   \<and> map ambiguous (label_biallelic_ambiguous [match_AG, match_AT] True) = [False]"
proof -
  have "label_biallelic_ambiguous [match_AG, match_AT] True =
     filter (\<lambda>r. \<not> ambiguous r) (label_biallelic_ambiguous [match_AG, match_AT] False)"
    using remove_is_filter [of "[match_AG, match_AT]"] by (rule conjunct1)
  moreover have "map ID (label_biallelic_ambiguous [match_AG, match_AT] False)
      = [''rs1'', ''rs2'']"
    by code_simp
  moreover have "map ID (filter (\<lambda>r. \<not> ambiguous r)
      (label_biallelic_ambiguous [match_AG, match_AT] False)) = [''rs1'']"
    by code_simp
  moreover have "map ambiguous (filter (\<lambda>r. \<not> ambiguous r)
      (label_biallelic_ambiguous [match_AG, match_AT] False)) = [False]"
    by code_simp
  ultimately show ?thesis by (simp only: simp_thms)
qed

text \<open>
  Claim C3. For the target row (1, 100, A, G), with any identifier, and the scoring-file
  row (1, 100, A, G, 0.5, additive, X), matching and labelling give exactly one record: its
  match type is \<open>refalt\<close>, it is not ambiguous, and its weight is 0.5. This holds with and
  without removal.
\<close>

theorem scenario_one:
  "get_all_matches
     (read_target [\<lparr>CHROM = ''1'', variant_row.ID = i, POS = 100,
                     variant_row.REF = ''A'', variant_row.ALT = ''G''\<rparr>])
     (read_scorefile [score_AG]) remove
   = [\<lparr>chr_name = ''1'', chr_position = 100, effect_allele = ''A'', other_allele = ''G'',
        effect_weight = 0.5, effect_type = ''additive'', accession = ''X'',
        ID = i, REF = ''A'', ALT = ''G'', REF_FLIP = ''T'', ALT_FLIP = ''C'',
        match_type = ''refalt'', ambiguous = False\<rparr>]"
  by (simp add: get_all_matches_def match_variants_def label_biallelic_ambiguous_def
      read_target_def read_scorefile_def flip_def replace_all_def joined_col_def
      match_record.defs labelled_match.defs Let_def)

subsection \<open>Splitting by duplicated identifier\<close>

text \<open>Selecting rows by a mask computed row by row is filtering.\<close>

lemma mask_rows_map: "mask_rows df (map P df) = filter P df"
  unfolding mask_rows_def by (induction df) auto

lemma is_duplicated_ID:
  "is_duplicated (map f df) = map (\<lambda>r. 1 < count_list (map f df) (f r)) df"
  by (simp add: is_duplicated_def)

lemma first_filter:
  "first (unduplicate_variants df) = filter (\<lambda>r. \<not> 1 < count_list (map ID df) (ID r)) df"
proof -
  have "map Not (is_duplicated (map ID df)) = map (\<lambda>r. \<not> 1 < count_list (map ID df) (ID r)) df"
    by (simp add: is_duplicated_ID)
  then show ?thesis
    by (simp only: unduplicate_variants_def split_groups.simps mask_rows_map)
qed

lemma dup_filter:
  "dup (unduplicate_variants df) = filter (\<lambda>r. 1 < count_list (map ID df) (ID r)) df"
  by (simp only: unduplicate_variants_def split_groups.simps is_duplicated_ID mask_rows_map)

lemma count_ID_pos: "r \<in> set df \<Longrightarrow> 0 < count_list (map f df) (f r)"
  by (simp add: count_list_0_iff zero_less_iff_neq_zero)

text \<open>
  Claim C5. The duplicate splitter partitions its input and alters no row: the two groups
  together hold the input rows with their multiplicities, no row is in both, every
  identifier of the \<open>dup\<close> group occurs at least twice in the input and every
  identifier of the \<open>first\<close> group occurs exactly once.
\<close>

theorem unduplicate_partition:
  "mset (first (unduplicate_variants df)) + mset (dup (unduplicate_variants df)) = mset df
   \<and> set (first (unduplicate_variants df)) \<inter> set (dup (unduplicate_variants df)) = {}
   \<and> (\<forall>r \<in> set (dup (unduplicate_variants df)). 2 \<le> count_list (map ID df) (ID r))
   \<and> (\<forall>r \<in> set (first (unduplicate_variants df)). count_list (map ID df) (ID r) = 1)"
proof (intro conjI ballI)
  show "mset (first (unduplicate_variants df)) + mset (dup (unduplicate_variants df)) = mset df"
    by (simp add: first_filter dup_filter)
  show "set (first (unduplicate_variants df)) \<inter> set (dup (unduplicate_variants df)) = {}"
    by (auto simp: first_filter dup_filter)
next
  fix r assume "r \<in> set (dup (unduplicate_variants df))"
  then show "2 \<le> count_list (map ID df) (ID r)"
    by (simp add: dup_filter)
next
  fix r assume "r \<in> set (first (unduplicate_variants df))"
  then have "r \<in> set df" and "\<not> 1 < count_list (map ID df) (ID r)"
    by (simp_all add: first_filter)
  with count_ID_pos [of r df ID] show "count_list (map ID df) (ID r) = 1"
    by simp
qed

text \<open>
  The statement at the matches of three scoring-file rows, two of which match the target
  row \<open>rs3\<close> with different effect alleles.
\<close>

theorem unduplicate_partition_witness:
  "map ID (first (unduplicate_variants
      (get_all_matches (read_target [row_AG, row_CT]) [score_AG, score_CT, score_TC] True)))
     = [''rs1'']
   \<and> map ID (dup (unduplicate_variants
      (get_all_matches (read_target [row_AG, row_CT]) [score_AG, score_CT, score_TC] True)))
     = [''rs3'', ''rs3'']
   \<and> mset (first (unduplicate_variants
      (get_all_matches (read_target [row_AG, row_CT]) [score_AG, score_CT, score_TC] True)))
      + mset (dup (unduplicate_variants
      (get_all_matches (read_target [row_AG, row_CT]) [score_AG, score_CT, score_TC] True)))
     = mset (get_all_matches (read_target [row_AG, row_CT]) [score_AG, score_CT, score_TC] True)
   \<and> 2 \<le> count_list (map ID
          (get_all_matches (read_target [row_AG, row_CT]) [score_AG, score_CT, score_TC] True))
          ''rs3''
   \<and> count_list (map ID
          (get_all_matches (read_target [row_AG, row_CT]) [score_AG, score_CT, score_TC] True))
          ''rs1'' = 1"
proof -
  let ?df = "get_all_matches (read_target [row_AG, row_CT]) [score_AG, score_CT, score_TC] True"
  let ?u = "unduplicate_variants ?df"
  have a: "map ID (first ?u) = [''rs1'']"
    by code_simp
  have b: "map ID (dup ?u) = [''rs3'', ''rs3'']"
    by code_simp
  from a have fm: "hd (first ?u) \<in> set (first ?u)" and fi: "ID (hd (first ?u)) = ''rs1''"
    by (auto simp: map_eq_Cons_conv)
  from b have dm: "hd (dup ?u) \<in> set (dup ?u)" and di: "ID (hd (dup ?u)) = ''rs3''"
    by (auto simp: map_eq_Cons_conv)
  note p = unduplicate_partition [of ?df]
  from p have "mset (first ?u) + mset (dup ?u) = mset ?df"
    by (rule conjunct1)
  moreover from p dm have "2 \<le> count_list (map ID ?df) (ID (hd (dup ?u)))"
    by blast
  moreover from p fm have "count_list (map ID ?df) (ID (hd (first ?u))) = 1"
    by blast
  ultimately show ?thesis using a b
    by (simp only: fi di simp_thms)
qed

subsection \<open>The run\<close>












text \<open>
  Claim C10. \<^verbatim>\<open>write_scorefile\<close> writes the tables of the \<open>first\<close> group when it has rows,
  then those of the \<open>dup\<close> group when it has rows, and it always returns: an empty
  group is skipped, and a group of two empty parts writes nothing.
\<close>

theorem empty_group_skipped:
  "map snd (write_scorefile et g sp) =
     (if first g = [] then [] else map snd (format_scorefile (first g) sp))
     @ (if dup g = [] then [] else map snd (format_scorefile (dup g) sp))
   \<and> (first g = [] \<and> dup g = [] \<longrightarrow> write_scorefile et g sp = [])
   \<and> (first g = [] \<and> dup g \<noteq> [] \<longrightarrow>
        length (write_scorefile et g sp) = length (format_scorefile (dup g) sp))
   \<and> (dup g = [] \<and> first g \<noteq> [] \<longrightarrow>
        length (write_scorefile et g sp) = length (format_scorefile (first g) sp))"
  by (simp add: write_scorefile_def case_prod_unfold)

text \<open>
  The statement at the groups of a run with one unique identifier (no \<open>dup\<close> rows), of a
  run with one duplicated identifier (no \<open>first\<close> rows), and at two empty groups.
\<close>

theorem empty_group_skipped_witness:
  "dup (unduplicate_variants (get_all_matches (read_target [row_AG]) [score_AG] True)) = []
   \<and> first (unduplicate_variants (get_all_matches (read_target [row_AG]) [score_AG] True)) \<noteq> []
   \<and> length (write_scorefile (Some ''additive'')
        (unduplicate_variants (get_all_matches (read_target [row_AG]) [score_AG] True)) False)
      = length (format_scorefile
          (first (unduplicate_variants (get_all_matches (read_target [row_AG]) [score_AG] True)))
          False)
   \<and> first (unduplicate_variants
        (get_all_matches (read_target [row_CT]) [score_CT, score_TC] True)) = []
   \<and> dup (unduplicate_variants
        (get_all_matches (read_target [row_CT]) [score_CT, score_TC] True)) \<noteq> []
   \<and> length (write_scorefile (Some ''additive'')
        (unduplicate_variants
          (get_all_matches (read_target [row_CT]) [score_CT, score_TC] True)) False)
      = length (format_scorefile
          (dup (unduplicate_variants
            (get_all_matches (read_target [row_CT]) [score_CT, score_TC] True)))
          False)
   \<and> write_scorefile (Some ''additive'') \<lparr>first = [], dup = []\<rparr> False = []"
proof -
  let ?u1 = "unduplicate_variants (get_all_matches (read_target [row_AG]) [score_AG] True)"
  let ?u2 = "unduplicate_variants
    (get_all_matches (read_target [row_CT]) [score_CT, score_TC] True)"
  have a: "dup ?u1 = []" "first ?u1 \<noteq> []" "first ?u2 = []" "dup ?u2 \<noteq> []"
    by code_simp+
  have b: "first \<lparr>first = [], dup = []\<rparr> = []" "dup \<lparr>first = [], dup = []\<rparr> = []"
    by simp_all
  from a empty_group_skipped [of "Some ''additive''" ?u1 False]
  have "length (write_scorefile (Some ''additive'') ?u1 False)
      = length (format_scorefile (first ?u1) False)"
    by blast
  moreover from a empty_group_skipped [of "Some ''additive''" ?u2 False]
  have "length (write_scorefile (Some ''additive'') ?u2 False)
      = length (format_scorefile (dup ?u2) False)"
    by blast
  moreover from b empty_group_skipped [of "Some ''additive''" "\<lparr>first = [], dup = []\<rparr>" False]
  have "write_scorefile (Some ''additive'') \<lparr>first = [], dup = []\<rparr> False = []"
    by blast
  ultimately show ?thesis using a by blast
qed

text \<open>\<^verbatim>\<open>main\<close> never reads the option \<^verbatim>\<open>min_overlap\<close>.\<close>

lemma min_overlap_ignored: "main (a\<lparr>min_overlap := m\<rparr>) tf sfile = main a tf sfile"
  by (simp add: main_def Let_def)

text \<open>
  Claim C8 fails on the code. In this run one of the two variants of the scoring file is
  matched, a fraction of 0.5 under the threshold 0.75 given by \<^verbatim>\<open>-m\<close>; \<^verbatim>\<open>main\<close> returns
  without an error and writes a score file.
\<close>

theorem min_overlap_not_enforced:
  "real (length (get_all_matches (read_target [row_AG])
                  (read_scorefile [score_AG, score_unmatched]) True))
     / real (length [score_AG, score_unmatched])
     < min_overlap (cli False 0.75)
   \<and> main (cli False 0.75) [row_AG] [score_AG, score_unmatched]
     = (Inr (), [(''false_additive_first.scorefile'',
                  \<lparr>header = [''ID'', ''effect_allele'', ''X''],
                   body = [(''rs1'', ''A'', [0.5])]\<rparr>)])"
  by code_simp

text \<open>
  Claim C9 fails on the code. In this run the \<open>first\<close> group (identifier \<open>rs1\<close>) and the
  \<open>dup\<close> group (identifier \<open>rs3\<close>) of the additive effect type both have rows; both
  are written to the path \<^verbatim>\<open>false_additive_first.scorefile\<close>, and the file left on disk holds
  the \<open>dup\<close> group only.
\<close>

theorem dup_group_overwrites_first:
  "snd (main (cli False 0.75) [row_AG, row_CT] [score_AG, score_CT, score_TC])
     = [(''false_additive_first.scorefile'',
         \<lparr>header = [''ID'', ''effect_allele'', ''X''], body = [(''rs1'', ''A'', [0.5])]\<rparr>),
        (''false_additive_first.scorefile'',
         \<lparr>header = [''ID'', ''effect_allele'', ''X'', ''Y''],
          body = [(''rs3'', ''C'', [0.25, 0]), (''rs3'', ''T'', [0, 0.75])]\<rparr>)]
   \<and> disk (snd (main (cli False 0.75) [row_AG, row_CT] [score_AG, score_CT, score_TC]))
        ''false_additive_first.scorefile''
     = Some \<lparr>header = [''ID'', ''effect_allele'', ''X'', ''Y''],
          body = [(''rs3'', ''C'', [0.25, 0]), (''rs3'', ''T'', [0, 0.75])]\<rparr>"
  by code_simp

end
